theory Spec2Isabelle
  imports Complex_Main
begin

section \<open>The moving average filter of \<^verbatim>\<open>moving_average_filter.py\<close>\<close>

text \<open>
  The class \<^verbatim>\<open>MovingAverageFilter\<close> keeps a ring buffer of the last
  \<^verbatim>\<open>window_size\<close> samples together with their running sum. Samples are modelled
  as exact reals (the rounding of IEEE doubles is not part of the model), Python's
  unbounded integers as \<open>int\<close>, and every exception the interpreter or numpy can raise
  on the modelled paths as a value of \<open>error\<close>. Each method takes the object and
  returns its result together with the object as the call leaves it, so that a call
  stopped by an exception still shows the assignments made before it.
\<close>

subsection \<open>Exceptions and the numpy primitives the class uses\<close>

datatype error = ValueError | IndexError | ZeroDivisionError

text \<open>
  \<^verbatim>\<open>np.zeros(n)\<close> and \<^verbatim>\<open>np.ones(n)\<close> for an integer \<open>n\<close>: a negative length is
  rejected with \<^verbatim>\<open>ValueError\<close> (negative dimensions are not allowed); zero gives
  the empty array.
\<close>

definition np_zeros :: "int \<Rightarrow> error + real list" where
  "np_zeros n = (if n < 0 then Inl ValueError else Inr (replicate (nat n) 0))"

definition np_ones :: "int \<Rightarrow> error + real list" where
  "np_ones n = (if n < 0 then Inl ValueError else Inr (replicate (nat n) 1))"

text \<open>
  Reading and writing one element of a one-dimensional array with an integer index:
  an index in \<open>[-len, 0)\<close> counts from the end, anything outside \<open>[-len, len)\<close>
  raises \<^verbatim>\<open>IndexError\<close>.
\<close>

definition norm_index :: "'a list \<Rightarrow> int \<Rightarrow> error + nat" where
  "norm_index xs i =
     (let n = int (length xs); j = (if i < 0 then i + n else i)
      in if 0 \<le> j \<and> j < n then Inr (nat j) else Inl IndexError)"

definition ndarray_get :: "real list \<Rightarrow> int \<Rightarrow> error + real" where
  "ndarray_get xs i = (case norm_index xs i of Inl e \<Rightarrow> Inl e | Inr j \<Rightarrow> Inr (xs ! j))"

definition ndarray_set :: "real list \<Rightarrow> int \<Rightarrow> real \<Rightarrow> error + real list" where
  "ndarray_set xs i v = (case norm_index xs i of Inl e \<Rightarrow> Inl e | Inr j \<Rightarrow> Inr (xs[j := v]))"

text \<open>Python's \<^verbatim>\<open>a % b\<close> on integers: floor modulus, \<^verbatim>\<open>ZeroDivisionError\<close> for \<open>b = 0\<close>.\<close>

definition py_mod :: "int \<Rightarrow> int \<Rightarrow> error + int" where
  "py_mod a b = (if b = 0 then Inl ZeroDivisionError else Inr (a mod b))"

subsection \<open>The object and its constructor\<close>

record averager =
  window_size :: int
  buffer :: "real list"
  index :: int
  sum_acc :: real

text \<open>
  \<^verbatim>\<open>__init__\<close>: four assignments and no check of the argument. The only statement
  that can raise is the allocation of the buffer; when it does, no object is returned.
\<close>

definition MovingAverageFilter :: "int \<Rightarrow> error + averager" where
  "MovingAverageFilter n =
     (case np_zeros n of
        Inl e \<Rightarrow> Inl e
      | Inr zs \<Rightarrow> Inr \<lparr>window_size = n, buffer = zs, index = 0, sum_acc = 0\<rparr>)"

subsection \<open>Filtering\<close>

text \<open>
  \<^verbatim>\<open>filter_sample\<close>, statement by statement:
  \<^verbatim>\<open>self.sum -= self.buffer[self.index]\<close>,
  \<^verbatim>\<open>self.buffer[self.index] = input_sample\<close>,
  \<^verbatim>\<open>self.sum += input_sample\<close>,
  \<^verbatim>\<open>self.index = (self.index + 1) % self.window_size\<close>,
  \<^verbatim>\<open>return self.sum / self.window_size\<close>.
  The division is only reached with a non-zero \<^verbatim>\<open>window_size\<close>, since the
  modulus before it raises otherwise.
\<close>

definition filter_sample :: "averager \<Rightarrow> real \<Rightarrow> (error + real) \<times> averager" where
  "filter_sample s input_sample =
     (case ndarray_get (buffer s) (index s) of
        Inl e \<Rightarrow> (Inl e, s)
      | Inr oldest \<Rightarrow>
          let s1 = s\<lparr>sum_acc := sum_acc s - oldest\<rparr> in
          (case ndarray_set (buffer s1) (index s1) input_sample of
             Inl e \<Rightarrow> (Inl e, s1)
           | Inr b \<Rightarrow>
               let s2 = s1\<lparr>buffer := b\<rparr>;
                   s3 = s2\<lparr>sum_acc := sum_acc s2 + input_sample\<rparr> in
               (case py_mod (index s3 + 1) (window_size s3) of
                  Inl e \<Rightarrow> (Inl e, s3)
                | Inr i \<Rightarrow>
                    let s4 = s3\<lparr>index := i\<rparr> in
                    (Inr (sum_acc s4 / real_of_int (window_size s4)), s4))))"



subsection \<open>Impulse and frequency response\<close>

text \<open>
  \<^verbatim>\<open>get_impulse_response\<close>: \<^verbatim>\<open>np.ones(self.window_size) / self.window_size\<close>, an
  element-wise division (so nothing is divided when the array is empty).
\<close>

definition get_impulse_response :: "averager \<Rightarrow> (error + real list) \<times> averager" where
  "get_impulse_response s =
     (case np_ones (window_size s) of
        Inl e \<Rightarrow> (Inl e, s)
      | Inr ones \<Rightarrow> (Inr (map (\<lambda>v. v / real_of_int (window_size s)) ones), s))"

text \<open>
  \<^verbatim>\<open>scipy.signal.freqz(b, worN=N)\<close> for an FIR filter \<open>b\<close> (denominator \<open>1\<close>) and an
  integer \<open>N\<close>, by its documented contract: a negative \<open>N\<close> is rejected with
  \<^verbatim>\<open>ValueError\<close>; the frequencies are \<^verbatim>\<open>np.linspace(0, pi, N, endpoint=False)\<close>,
  that is \<open>k * (\<pi> / N)\<close> for \<open>k < N\<close>; the response at \<open>w\<close> is
  \<open>\<Sum>n. b[n] * exp (- j w n)\<close>.
\<close>

definition linspace_open :: "real \<Rightarrow> nat \<Rightarrow> real list" where
  "linspace_open stop num = map (\<lambda>k. real k * (stop / real num)) [0..<num]"

definition dtft :: "real list \<Rightarrow> real \<Rightarrow> complex" where
  "dtft b w =
     sum_list (map (\<lambda>n. complex_of_real (b ! n) * exp (- (\<i> * complex_of_real (w * real n))))
                   [0..<length b])"

definition freqz :: "real list \<Rightarrow> int \<Rightarrow> error + (real list \<times> complex list)" where
  "freqz b worN =
     (if worN < 0 then Inl ValueError
      else let w = linspace_open pi (nat worN) in Inr (w, map (dtft b) w))"

text \<open>\<^verbatim>\<open>np.angle(z)\<close> is \<^verbatim>\<open>arctan2(z.imag, z.real)\<close>, with \<^verbatim>\<open>arctan2(0, 0) = 0\<close>.\<close>

definition arctan2 :: "real \<Rightarrow> real \<Rightarrow> real" where
  "arctan2 y x =
     (if 0 < x then arctan (y / x)
      else if x < 0 then (if 0 \<le> y then arctan (y / x) + pi else arctan (y / x) - pi)
      else if 0 < y then pi / 2
      else if y < 0 then - (pi / 2)
      else 0)"

definition np_angle :: "complex \<Rightarrow> real" where
  "np_angle z = arctan2 (Im z) (Re z)"

definition get_frequency_response ::
  "averager \<Rightarrow> int \<Rightarrow> (error + (real list \<times> real list \<times> real list)) \<times> averager" where
  "get_frequency_response s num_points =
     (case get_impulse_response s of
        (Inl e, s1) \<Rightarrow> (Inl e, s1)
      | (Inr h, s1) \<Rightarrow>
          (case freqz h num_points of
             Inl e \<Rightarrow> (Inl e, s1)
           | Inr (w, H) \<Rightarrow>
               let frequencies = map (\<lambda>v. v / (2 * pi)) w;
                   magnitude = map cmod H;
                   phase = map np_angle H
               in (Inr (frequencies, magnitude, phase), s1)))"

subsection \<open>Notions used to state the properties\<close>

text \<open>
  The class invariant of a constructed filter with at least one slot: the buffer has
  \<^verbatim>\<open>window_size\<close> elements and the write index points into it.
\<close>

definition averager_state :: "averager \<Rightarrow> bool" where
  "averager_state s \<longleftrightarrow>
     1 \<le> window_size s \<and> int (length (buffer s)) = window_size s \<and>
     0 \<le> index s \<and> index s < window_size s"

text \<open>
  The streaming use of the filter: one call of \<^verbatim>\<open>filter_sample\<close> per element, in
  order, the results collected in order; the first exception ends the sequence.
\<close>

fun filter_samples :: "averager \<Rightarrow> real list \<Rightarrow> (error + real list) \<times> averager" where
  "filter_samples s [] = (Inr [], s)"
| "filter_samples s (x # xs) =
     (case filter_sample s x of
        (Inl e, s') \<Rightarrow> (Inl e, s')
      | (Inr y, s') \<Rightarrow>
          (case filter_samples s' xs of
             (Inl e, s'') \<Rightarrow> (Inl e, s'')
           | (Inr ys, s'') \<Rightarrow> (Inr (y # ys), s'')))"


text \<open>
  After the samples \<open>xs\<close> have gone through a filter of \<open>N\<close> slots that started
  zero-filled, slot \<open>m mod N\<close> holds element \<open>m\<close> of the zero-padded history
  \<open>replicate N 0 @ xs\<close>, for the \<open>N\<close> most recent positions \<open>m\<close>.
\<close>

definition tracks :: "nat \<Rightarrow> real list \<Rightarrow> averager \<Rightarrow> bool" where
  "tracks N xs s \<longleftrightarrow>
     window_size s = int N \<and> length (buffer s) = N \<and>
     index s = int (length xs mod N) \<and>
     sum_acc s = sum_list (buffer s) \<and>
     (\<forall>m. length xs \<le> m \<and> m < length xs + N \<longrightarrow>
          buffer s ! (m mod N) = (replicate N 0 @ xs) ! m)"

text \<open>
  The transfer function of the \<open>N\<close>-point averager as the textbook formula has it:
  \<open>H(w) = \<Sum>n<N. (1/N) * exp (- j w n)\<close>.
\<close>

definition transfer_function :: "nat \<Rightarrow> real \<Rightarrow> complex" where
  "transfer_function N w =
     (\<Sum>n = 0..<N. complex_of_real (1 / real N) * exp (- (\<i> * complex_of_real (w * real n))))"

section \<open>One call of \<^verbatim>\<open>filter_sample\<close>\<close>

lemma norm_index_in_range:
  "0 \<le> i \<Longrightarrow> i < int (length xs) \<Longrightarrow> norm_index xs i = Inr (nat i)"
  by (simp add: norm_index_def Let_def)

lemma filter_sample_in_range:
  assumes "0 \<le> index s" "index s < int (length (buffer s))" "window_size s \<noteq> 0"
  shows "filter_sample s x =
           (Inr ((sum_acc s - buffer s ! nat (index s) + x) / real_of_int (window_size s)),
            s\<lparr>sum_acc := sum_acc s - buffer s ! nat (index s) + x,
              buffer := (buffer s)[nat (index s) := x],
              index := (index s + 1) mod window_size s\<rparr>)"
  using assms
  by (simp add: filter_sample_def ndarray_get_def ndarray_set_def norm_index_in_range
      py_mod_def Let_def)

lemma filter_sample_averager_state:
  assumes "averager_state s"
  shows "filter_sample s x =
           (Inr ((sum_acc s - buffer s ! nat (index s) + x) / real_of_int (window_size s)),
            s\<lparr>sum_acc := sum_acc s - buffer s ! nat (index s) + x,
              buffer := (buffer s)[nat (index s) := x],
              index := (index s + 1) mod window_size s\<rparr>)"
  using assms by (intro filter_sample_in_range) (auto simp: averager_state_def)


lemma averager_state_fresh:
  "1 \<le> n \<Longrightarrow> MovingAverageFilter n =
      Inr \<lparr>window_size = n, buffer = replicate (nat n) 0, index = 0, sum_acc = 0\<rparr>"
  by (simp add: MovingAverageFilter_def np_zeros_def)

lemma MovingAverageFilter_averager_state:
  "1 \<le> n \<Longrightarrow> MovingAverageFilter n = Inr s \<Longrightarrow> averager_state s"
  by (auto simp: averager_state_fresh averager_state_def)

text \<open>
  Claim C1. On a filter that satisfies the class invariant (so \<open>window_size \<ge> 1\<close>), one
  call of \<^verbatim>\<open>filter_sample\<close> with input \<open>x\<close> subtracts the slot at the write index
  from the sum, stores \<open>x\<close> in that slot, adds \<open>x\<close> to the sum, moves the index to
  \<open>(index + 1) mod window_size\<close> and returns the new sum divided by \<open>window_size\<close>;
  every other slot keeps its value, and the new index is again inside the ring.
\<close>

theorem filter_sample_contract:
  assumes "averager_state s"
  shows "filter_sample s x =
           (Inr ((sum_acc s - buffer s ! nat (index s) + x) / real_of_int (window_size s)),
            s\<lparr>sum_acc := sum_acc s - buffer s ! nat (index s) + x,
              buffer := (buffer s)[nat (index s) := x],
              index := (index s + 1) mod window_size s\<rparr>) \<and>
         (buffer s)[nat (index s) := x] ! nat (index s) = x \<and>
         (\<forall>j. j \<noteq> nat (index s) \<longrightarrow> (buffer s)[nat (index s) := x] ! j = buffer s ! j) \<and>
         0 \<le> (index s + 1) mod window_size s \<and>
         (index s + 1) mod window_size s < window_size s"
  using assms filter_sample_averager_state[OF assms, of x]
  by (auto simp: averager_state_def)

text \<open>Claim C1 at a three-slot filter whose index wraps around.\<close>

theorem filter_sample_contract_witness:
  "averager_state \<lparr>window_size = 3, buffer = [5, 7, 9], index = 2, sum_acc = 21\<rparr> \<and>
   filter_sample \<lparr>window_size = 3, buffer = [5, 7, 9], index = 2, sum_acc = 21\<rparr> 3 =
     (Inr 5, \<lparr>window_size = 3, buffer = [5, 7, 3], index = 0, sum_acc = 15\<rparr>)"
proof -
  let ?s = "\<lparr>window_size = 3, buffer = [5, 7, 9], index = 2, sum_acc = 21\<rparr>"
  have h: "averager_state ?s" by (simp add: averager_state_def)
  from filter_sample_contract[OF h, of 3] h show ?thesis by simp
qed

section \<open>Sequences of calls\<close>







section \<open>The running sum\<close>

lemma sum_list_update_real:
  fixes xs :: "real list"
  shows "k < length xs \<Longrightarrow> sum_list (xs[k := v]) = sum_list xs - xs ! k + v"
  by (induction xs arbitrary: k) (auto split: nat.splits)





section \<open>What the ring holds, and the outputs it gives\<close>

lemma filter_samples_append:
  "filter_samples s (xs @ zs) =
     (case filter_samples s xs of
        (Inl e, s') \<Rightarrow> (Inl e, s')
      | (Inr ys, s') \<Rightarrow>
          (case filter_samples s' zs of
             (Inl e, s'') \<Rightarrow> (Inl e, s'')
           | (Inr ws, s'') \<Rightarrow> (Inr (ys @ ws), s'')))"
  by (induction xs arbitrary: s) (auto split: prod.splits sum.splits)

lemma tracks_init:
  "0 < N \<Longrightarrow>
   tracks N [] \<lparr>window_size = int N, buffer = replicate N 0, index = 0, sum_acc = 0\<rparr>"
  by (simp add: tracks_def sum_list_replicate)

lemma tracks_averager_state: "0 < N \<Longrightarrow> tracks N xs s \<Longrightarrow> averager_state s"
  by (auto simp: tracks_def averager_state_def)

lemma ring_sum_shift:
  fixes f :: "nat \<Rightarrow> real"
  assumes "0 < N"
  shows "(\<Sum>m = n..<n + N. f (m mod N)) = (\<Sum>j = 0..<N. f j)"
proof (induction n)
  case 0
  then show ?case by simp
next
  case (Suc n)
  have "(\<Sum>m = Suc n..<Suc n + N. f (m mod N)) + f (n mod N)
        = (\<Sum>m = n..<Suc (n + N). f (m mod N))"
    by (simp add: sum.atLeast_Suc_lessThan)
  also have "\<dots> = (\<Sum>m = n..<n + N. f (m mod N)) + f ((n + N) mod N)"
    by simp
  finally show ?case using Suc by simp
qed

lemma tracks_sum:
  assumes "0 < N" "tracks N xs s"
  shows "sum_acc s = (\<Sum>m = length xs..<length xs + N. (replicate N 0 @ xs) ! m)"
proof -
  from assms have "sum_acc s = (\<Sum>j = 0..<N. buffer s ! j)"
    by (simp add: tracks_def sum_list_sum_nth)
  also have "\<dots> = (\<Sum>m = length xs..<length xs + N. buffer s ! (m mod N))"
    by (rule ring_sum_shift[OF assms(1), symmetric])
  also have "\<dots> = (\<Sum>m = length xs..<length xs + N. (replicate N 0 @ xs) ! m)"
    using assms(2) by (intro sum.cong) (auto simp: tracks_def)
  finally show ?thesis .
qed

lemma tracks_step:
  assumes N: "0 < N" and t: "tracks N xs s"
  shows "tracks N (xs @ [x]) (snd (filter_sample s x))"
proof -
  let ?n = "length xs"
  have a: "averager_state s" by (rule tracks_averager_state[OF N t])
  from t have ixi: "index s = int (?n mod N)" by (simp add: tracks_def)
  from t have ix: "nat (index s) = ?n mod N" and len: "length (buffer s) = N"
    and ws: "window_size s = int N" and sm: "sum_acc s = sum_list (buffer s)"
    by (simp_all add: tracks_def)
  have lt: "?n mod N < N" using N by simp
  have i1: "(int (?n mod N) + 1) mod int N = int (Suc ?n mod N)"
    by (metis mod_Suc_eq of_nat_Suc of_nat_mod add.commute)
  have buf: "((buffer s)[?n mod N := x]) ! (m mod N) = (replicate N 0 @ xs @ [x]) ! m"
    if m: "Suc ?n \<le> m" "m < Suc ?n + N" for m
  proof (cases "m = ?n + N")
    case True
    then show ?thesis using len lt by (simp add: nth_append)
  next
    case False
    with m have m': "?n \<le> m" "m < ?n + N" by simp_all
    have "m mod N \<noteq> ?n mod N"
    proof
      assume e: "m mod N = ?n mod N"
      then have "(m - ?n) mod N = 0" using m' by (metis mod_eq_dvd_iff_nat dvd_imp_mod_0)
      moreover have "0 < m - ?n" "m - ?n < N" using m m' by simp_all
      ultimately show False by simp
    qed
    then have "((buffer s)[?n mod N := x]) ! (m mod N) = buffer s ! (m mod N)" by simp
    also have "\<dots> = (replicate N 0 @ xs) ! m" using t m' by (simp add: tracks_def)
    also have "\<dots> = (replicate N 0 @ xs @ [x]) ! m"
      using m' by (auto simp: nth_append)
    finally show ?thesis .
  qed
  show ?thesis
    unfolding filter_sample_averager_state[OF a]
    using buf lt len ws sm i1 ix ixi
    by (simp add: tracks_def sum_list_update_real)
qed

lemma filter_samples_tracks:
  assumes N: "0 < N"
  shows "\<exists>ys s. filter_samples
                   \<lparr>window_size = int N, buffer = replicate N 0, index = 0, sum_acc = 0\<rparr> xs
                 = (Inr ys, s) \<and>
               tracks N xs s \<and> length ys = length xs \<and>
               (\<forall>k<length xs. ys ! k =
                   (\<Sum>m = Suc k..<Suc k + N. (replicate N 0 @ xs) ! m) / real N)"
proof (induction xs rule: rev_induct)
  case Nil
  then show ?case using tracks_init[OF N] by simp
next
  case (snoc x xs)
  let ?s0 = "\<lparr>window_size = int N, buffer = replicate N 0, index = 0, sum_acc = 0\<rparr>"
  from snoc obtain ys s where run: "filter_samples ?s0 xs = (Inr ys, s)"
    and t: "tracks N xs s" and len: "length ys = length xs"
    and out: "\<forall>k<length xs. ys ! k =
                (\<Sum>m = Suc k..<Suc k + N. (replicate N 0 @ xs) ! m) / real N"
    by blast
  have a: "averager_state s" by (rule tracks_averager_state[OF N t])
  define s' where "s' = snd (filter_sample s x)"
  have t': "tracks N (xs @ [x]) s'" unfolding s'_def by (rule tracks_step[OF N t])
  have step: "filter_sample s x = (Inr (sum_acc s' / real N), s')"
    using t unfolding s'_def filter_sample_averager_state[OF a] by (simp add: tracks_def)
  have run': "filter_samples ?s0 (xs @ [x]) = (Inr (ys @ [sum_acc s' / real N]), s')"
    using run step by (simp add: filter_samples_append)
  have outs: "(ys @ [sum_acc s' / real N]) ! k =
                (\<Sum>m = Suc k..<Suc k + N. (replicate N 0 @ xs @ [x]) ! m) / real N"
    if k: "k < length (xs @ [x])" for k
  proof (cases "k = length xs")
    case True
    then show ?thesis using tracks_sum[OF N t'] len by (simp add: nth_append)
  next
    case False
    with k have k': "k < length xs" by simp
    have "(\<Sum>m = Suc k..<Suc k + N. (replicate N 0 @ xs @ [x]) ! m)
          = (\<Sum>m = Suc k..<Suc k + N. (replicate N 0 @ xs) ! m)"
      using k' by (intro sum.cong) (auto simp: nth_append)
    then show ?thesis using out k' len by (simp add: nth_append)
  qed
  show ?case using run' t' len outs by auto
qed

lemma fresh_nat:
  assumes "1 \<le> n" "MovingAverageFilter n = Inr s0"
  shows "s0 = \<lparr>window_size = int (nat n), buffer = replicate (nat n) 0, index = 0, sum_acc = 0\<rparr>"
    and "0 < nat n"
  using assms by (simp_all add: averager_state_fresh)

lemma get_impulse_response_eq:
  "0 \<le> window_size s \<Longrightarrow>
   get_impulse_response s =
     (Inr (replicate (nat (window_size s)) (1 / real_of_int (window_size s))), s)"
  by (simp add: get_impulse_response_def np_ones_def)

text \<open>
  Claim C5. On a freshly constructed filter with \<open>N = window_size \<ge> 1\<close>, feeding a unit
  impulse followed by zeros (at least \<open>N\<close> samples in all) one sample at a time gives
  the impulse response followed by zeros, and \<^verbatim>\<open>get_impulse_response\<close> is \<open>N\<close>
  values \<open>1/N\<close>.
\<close>

theorem impulse_response_identity:
  assumes "1 \<le> n" and "MovingAverageFilter n = Inr s0" and "nat n \<le> Suc L"
  shows "\<exists>ys s h. filter_samples s0 (1 # replicate L 0) = (Inr ys, s) \<and>
           get_impulse_response s0 = (Inr h, s0) \<and>
           h = replicate (nat n) (1 / real_of_int n) \<and>
           ys = h @ replicate (Suc L - nat n) 0"
proof -
  let ?N = "nat n"
  let ?xs = "1 # replicate L (0::real)"
  note s0 = fresh_nat[OF assms(1,2)]
  from filter_samples_tracks[OF s0(2), of ?xs] s0(1)
  obtain ys s where run: "filter_samples s0 ?xs = (Inr ys, s)"
    and len: "length ys = Suc L"
    and out: "\<forall>k<Suc L. ys ! k =
                (\<Sum>m = Suc k..<Suc k + ?N. (replicate ?N 0 @ ?xs) ! m) / real ?N"
    by auto
  have hist: "(replicate ?N 0 @ ?xs) ! m = (if m = ?N then 1 else 0)"
    if "m < ?N + Suc L" for m
    using that by (auto simp: nth_append nth_Cons split: nat.splits)
  have val: "ys ! k = (if k < ?N then 1 / real ?N else 0)" if k: "k < Suc L" for k
  proof -
    have "(\<Sum>m = Suc k..<Suc k + ?N. (replicate ?N 0 @ ?xs) ! m)
          = (\<Sum>m = Suc k..<Suc k + ?N. if m = ?N then 1 else 0)"
      using k by (intro sum.cong) (auto simp: hist)
    also have "\<dots> = (if k < ?N then 1 else 0)"
      by simp
    finally show ?thesis using out k by simp
  qed
  have "ys = replicate ?N (1 / real_of_int n) @ replicate (Suc L - ?N) 0"
    using len assms(1,3) val
    by (intro nth_equalityI) (auto simp: nth_append)
  moreover have "get_impulse_response s0 =
      (Inr (replicate ?N (1 / real_of_int n)), s0)"
    using get_impulse_response_eq[of s0] assms(1) by (simp add: s0(1))
  ultimately show ?thesis using run by simp
qed

text \<open>Claim C5 for two slots and three samples.\<close>

theorem impulse_response_identity_witness:
  "(1::int) \<le> 2 \<and>
   MovingAverageFilter 2 = Inr \<lparr>window_size = 2, buffer = [0, 0], index = 0, sum_acc = 0\<rparr> \<and>
   nat 2 \<le> Suc 2 \<and>
   (\<exists>s. filter_samples \<lparr>window_size = 2, buffer = [0, 0], index = 0, sum_acc = 0\<rparr>
            [1, 0, 0] = (Inr [1 / 2, 1 / 2, 0], s)) \<and>
   get_impulse_response \<lparr>window_size = 2, buffer = [0, 0], index = 0, sum_acc = 0\<rparr>
     = (Inr [1 / 2, 1 / 2], \<lparr>window_size = 2, buffer = [0, 0], index = 0, sum_acc = 0\<rparr>)"
proof -
  let ?s = "\<lparr>window_size = 2, buffer = [0, 0], index = 0, sum_acc = 0\<rparr>"
  have f: "MovingAverageFilter 2 = Inr ?s"
    by (simp add: MovingAverageFilter_def np_zeros_def eval_nat_numeral)
  have g: "nat 2 \<le> Suc 2" by simp
  from impulse_response_identity[OF _ f g] f show ?thesis
    by (auto simp: eval_nat_numeral)
qed

text \<open>
  Claim C6. On a freshly constructed filter with \<open>N = window_size \<ge> 1\<close>, an input of
  ones gives \<open>(k + 1) / N\<close> as output \<open>k\<close> for every \<open>k < N\<close>: the slots not yet
  written count as zeros.
\<close>

theorem warm_up_transient:
  assumes "1 \<le> n" and "MovingAverageFilter n = Inr s0"
  shows "\<exists>ys s. filter_samples s0 (replicate L 1) = (Inr ys, s) \<and> length ys = L \<and>
           (\<forall>k. k < nat n \<and> k < L \<longrightarrow> ys ! k = (real k + 1) / real_of_int n)"
proof -
  let ?N = "nat n"
  let ?xs = "replicate L (1::real)"
  note s0 = fresh_nat[OF assms(1,2)]
  from filter_samples_tracks[OF s0(2), of ?xs] s0(1)
  obtain ys s where run: "filter_samples s0 ?xs = (Inr ys, s)"
    and len: "length ys = L"
    and out: "\<forall>k<L. ys ! k =
                (\<Sum>m = Suc k..<Suc k + ?N. (replicate ?N 0 @ ?xs) ! m) / real ?N"
    by auto
  have val: "ys ! k = (real k + 1) / real_of_int n" if k: "k < ?N" "k < L" for k
  proof -
    have "(\<Sum>m = Suc k..<Suc k + ?N. (replicate ?N 0 @ ?xs) ! m)
          = (\<Sum>m = Suc k..<Suc k + ?N. if m < ?N then 0 else (1::real))"
      using k by (intro sum.cong) (auto simp: nth_append)
    also have "\<dots> = (\<Sum>m = Suc k..<?N. if m < ?N then 0 else (1::real))
                      + (\<Sum>m = ?N..<Suc k + ?N. if m < ?N then 0 else (1::real))"
      using k by (intro sum.atLeastLessThan_concat[symmetric]) auto
    also have "\<dots> = real k + 1" by simp
    finally show ?thesis using out k assms(1) by simp
  qed
  show ?thesis using run len val by auto
qed

text \<open>Claim C6 for three slots.\<close>

theorem warm_up_transient_witness:
  "(1::int) \<le> 3 \<and>
   MovingAverageFilter 3 = Inr \<lparr>window_size = 3, buffer = [0, 0, 0], index = 0, sum_acc = 0\<rparr> \<and>
   (\<exists>ys s. filter_samples \<lparr>window_size = 3, buffer = [0, 0, 0], index = 0, sum_acc = 0\<rparr>
              [1, 1, 1] = (Inr ys, s) \<and> ys ! 0 = 1 / 3 \<and> ys ! 1 = 2 / 3 \<and> ys ! 2 = 1)"
proof -
  let ?s = "\<lparr>window_size = 3, buffer = [0, 0, 0], index = 0, sum_acc = 0\<rparr>"
  have f: "MovingAverageFilter 3 = Inr ?s"
    by (simp add: MovingAverageFilter_def np_zeros_def eval_nat_numeral)
  from warm_up_transient[OF _ f, of 3] obtain ys s where
    run: "filter_samples ?s (replicate 3 1) = (Inr ys, s)" and
    val: "\<forall>k. k < nat 3 \<and> k < 3 \<longrightarrow> ys ! k = (real k + 1) / real_of_int 3"
    by auto
  from val have "ys ! 0 = 1 / 3" "ys ! 1 = 2 / 3" "ys ! 2 = 1"
    using val[rule_format, of 0] val[rule_format, of 1] val[rule_format, of 2] by simp_all
  with run f show ?thesis by (simp add: eval_nat_numeral)
qed



section \<open>The response queries\<close>

lemma dtft_replicate:
  "dtft (replicate N (1 / real N)) w = transfer_function N w"
proof -
  have "map (\<lambda>n. complex_of_real (replicate N (1 / real N) ! n) *
                  exp (- (\<i> * complex_of_real (w * real n)))) [0..<N]
        = map (\<lambda>n. complex_of_real (1 / real N) *
                  exp (- (\<i> * complex_of_real (w * real n)))) [0..<N]"
    by (rule map_cong) simp_all
  then show ?thesis
    by (simp add: dtft_def transfer_function_def interv_sum_list_conv_sum_set_nat)
qed

lemma dtft_impulse:
  "0 \<le> n \<Longrightarrow>
   dtft (replicate (nat n) (1 / real_of_int n)) w = transfer_function (nat n) w"
  using dtft_replicate[of "nat n" w] by simp

lemma transfer_function_dc: "0 < N \<Longrightarrow> transfer_function N 0 = 1"
  by (simp add: transfer_function_def)

lemma np_angle_one: "np_angle 1 = 0"
  by (simp add: np_angle_def arctan2_def)

lemma get_frequency_response_eq:
  assumes "0 \<le> window_size s" "0 \<le> p"
  shows "get_frequency_response s p =
           (Inr (map (\<lambda>k. real k * (pi / real (nat p)) / (2 * pi)) [0..<nat p],
                 map (\<lambda>k. cmod (transfer_function (nat (window_size s))
                                  (real k * (pi / real (nat p))))) [0..<nat p],
                 map (\<lambda>k. np_angle (transfer_function (nat (window_size s))
                                  (real k * (pi / real (nat p))))) [0..<nat p]), s)"
proof -
  have h: "replicate (nat (window_size s)) (1 / real_of_int (window_size s))
           = replicate (nat (window_size s)) (1 / real (nat (window_size s)))"
    using assms(1) by simp
  show ?thesis
    using assms
    unfolding get_frequency_response_def get_impulse_response_eq[OF assms(1)]
    by (simp add: freqz_def linspace_open_def Let_def dtft_impulse comp_def)
qed

text \<open>
  Claim C8 as stated does not hold: the frequency grid does not reach \<open>0.5\<close>. With two
  points on a one-slot filter the frequencies are \<open>0\<close> and \<open>1/4\<close>.
\<close>

theorem frequency_grid_counterexample:
  "get_frequency_response \<lparr>window_size = 1, buffer = [0], index = 0, sum_acc = 0\<rparr> 2
     = (Inr ([0, 1 / 4], [1, 1], [0, 0]),
        \<lparr>window_size = 1, buffer = [0], index = 0, sum_acc = 0\<rparr>) \<and>
   (1 / 2 :: real) \<notin> set [0, 1 / 4]"
proof -
  have u: "[0..<2] = [0, Suc 0]" by (simp add: eval_nat_numeral upt_rec)
  have d: "dtft [1] w = 1" for w by (simp add: dtft_def)
  show ?thesis
    by (simp add: get_frequency_response_def get_impulse_response_def np_ones_def freqz_def
        linspace_open_def u d np_angle_def arctan2_def)
qed

text \<open>
  Claim C8, amended. For \<open>N = window_size \<ge> 1\<close> and \<open>num_points \<ge> 1\<close>,
  \<^verbatim>\<open>get_frequency_response\<close> returns three sequences of length \<open>num_points\<close>;
  frequency \<open>k\<close> is \<open>k / (2 * num_points)\<close>, so the points are equally spaced from
  \<open>0\<close> and stay below \<open>0.5\<close>; at each of them, with \<open>w = 2 \<pi> f\<close>, the magnitude is
  \<open>|H(w)|\<close> and the phase is \<open>arctan2 (Im H(w)) (Re H(w))\<close> for
  \<open>H(w) = \<Sum>n<N. (1/N) * exp (- j w n)\<close>; at frequency \<open>0\<close> the magnitude is \<open>1\<close> and
  the phase is \<open>0\<close>.
\<close>

theorem frequency_response_grid:
  assumes "1 \<le> window_size s" and "1 \<le> p"
  shows "\<exists>f m ph. get_frequency_response s p = (Inr (f, m, ph), s) \<and>
           length f = nat p \<and> length m = nat p \<and> length ph = nat p \<and>
           (\<forall>k<nat p.
              f ! k = real k / (2 * real_of_int p) \<and> 0 \<le> f ! k \<and> f ! k < 1 / 2 \<and>
              m ! k = cmod (transfer_function (nat (window_size s)) (2 * pi * f ! k)) \<and>
              ph ! k = arctan2 (Im (transfer_function (nat (window_size s)) (2 * pi * f ! k)))
                               (Re (transfer_function (nat (window_size s)) (2 * pi * f ! k)))) \<and>
           f ! 0 = 0 \<and> m ! 0 = 1 \<and> ph ! 0 = 0"
proof -
  let ?N = "nat (window_size s)"
  let ?P = "nat p"
  let ?w = "\<lambda>k. real k * (pi / real ?P)"
  let ?f = "map (\<lambda>k. ?w k / (2 * pi)) [0..<?P]"
  let ?m = "map (\<lambda>k. cmod (transfer_function ?N (?w k))) [0..<?P]"
  let ?ph = "map (\<lambda>k. np_angle (transfer_function ?N (?w k))) [0..<?P]"
  from assms have N: "0 < ?N" and P: "0 < ?P" by simp_all
  have run: "get_frequency_response s p = (Inr (?f, ?m, ?ph), s)"
    using assms by (intro get_frequency_response_eq) simp_all
  have w: "2 * pi * (?f ! k) = ?w k" if "k < ?P" for k
    using that by simp
  have fk: "?f ! k = real k / (2 * real_of_int p)" if "k < ?P" for k
    using that assms(2) by (simp add: field_simps)
  have bounds: "0 \<le> ?f ! k \<and> ?f ! k < 1 / 2" if k: "k < ?P" for k
  proof -
    have "real k < real_of_int p" using k assms(2) by linarith
    then show ?thesis unfolding fk[OF k] using assms(2) by (simp add: field_simps)
  qed
  have pts: "?f ! k = real k / (2 * real_of_int p) \<and> 0 \<le> ?f ! k \<and> ?f ! k < 1 / 2 \<and>
        ?m ! k = cmod (transfer_function ?N (2 * pi * ?f ! k)) \<and>
        ?ph ! k = arctan2 (Im (transfer_function ?N (2 * pi * ?f ! k)))
                          (Re (transfer_function ?N (2 * pi * ?f ! k)))"
    if k: "k < ?P" for k
    unfolding w[OF k] using fk[OF k] bounds[OF k] k by (simp add: np_angle_def)
  have dc: "?f ! 0 = 0 \<and> ?m ! 0 = 1 \<and> ?ph ! 0 = 0"
    using P N by (simp add: transfer_function_dc np_angle_one)
  show ?thesis
    using run pts dc by (intro exI[of _ ?f] exI[of _ ?m] exI[of _ ?ph]) simp
qed

text \<open>Claim C8, amended, for two slots and four points, on a filter that has seen samples.\<close>

theorem frequency_response_grid_witness:
  "1 \<le> window_size \<lparr>window_size = 2, buffer = [3, 4], index = 1, sum_acc = 7\<rparr> \<and>
   (1::int) \<le> 4 \<and>
   (\<exists>f m ph. get_frequency_response
                \<lparr>window_size = 2, buffer = [3, 4], index = 1, sum_acc = 7\<rparr> 4
              = (Inr (f, m, ph), \<lparr>window_size = 2, buffer = [3, 4], index = 1, sum_acc = 7\<rparr>) \<and>
      length f = 4 \<and> length m = 4 \<and> length ph = 4 \<and>
      f ! 0 = 0 \<and> f ! 3 = 3 / 8 \<and> m ! 0 = 1 \<and> ph ! 0 = 0)"
proof -
  let ?s = "\<lparr>window_size = 2, buffer = [3, 4], index = 1, sum_acc = 7\<rparr>"
  have h: "1 \<le> window_size ?s" by simp
  from frequency_response_grid[OF h, of 4] obtain f m ph where
    run: "get_frequency_response ?s 4 = (Inr (f, m, ph), ?s)" and
    len: "length f = nat 4" "length m = nat 4" "length ph = nat 4" and
    pts: "\<forall>k<nat 4. f ! k = real k / (2 * real_of_int 4)" and
    dc: "f ! 0 = 0" "m ! 0 = 1" "ph ! 0 = 0"
    by auto
  have "f ! 3 = 3 / 8" using pts[rule_format, of 3] by simp
  with run len dc show ?thesis by simp
qed

text \<open>
  Claim C9. \<^verbatim>\<open>get_impulse_response\<close> and \<^verbatim>\<open>get_frequency_response\<close> leave the
  object as it was, and two objects with the same \<^verbatim>\<open>window_size\<close> give the same
  results whatever their buffer, index and sum.
\<close>

theorem response_queries_pure:
  "snd (get_impulse_response s) = s \<and> snd (get_frequency_response s p) = s \<and>
   (window_size s = window_size s' \<longrightarrow>
      fst (get_impulse_response s) = fst (get_impulse_response s') \<and>
      fst (get_frequency_response s p) = fst (get_frequency_response s' p))"
  by (auto simp: get_frequency_response_def get_impulse_response_def Let_def
      split: sum.splits prod.splits)

text \<open>Claim C9 on a fresh two-slot filter and one that has seen samples.\<close>

theorem response_queries_pure_witness:
  "window_size \<lparr>window_size = 2, buffer = [0, 0], index = 0, sum_acc = 0\<rparr>
     = window_size \<lparr>window_size = 2, buffer = [3, 4], index = 1, sum_acc = 7\<rparr> \<and>
   fst (get_impulse_response \<lparr>window_size = 2, buffer = [0, 0], index = 0, sum_acc = 0\<rparr>)
     = fst (get_impulse_response \<lparr>window_size = 2, buffer = [3, 4], index = 1, sum_acc = 7\<rparr>) \<and>
   fst (get_frequency_response \<lparr>window_size = 2, buffer = [0, 0], index = 0, sum_acc = 0\<rparr> 8)
     = fst (get_frequency_response \<lparr>window_size = 2, buffer = [3, 4], index = 1, sum_acc = 7\<rparr> 8) \<and>
   snd (get_frequency_response \<lparr>window_size = 2, buffer = [3, 4], index = 1, sum_acc = 7\<rparr> 8)
     = \<lparr>window_size = 2, buffer = [3, 4], index = 1, sum_acc = 7\<rparr>"
  using response_queries_pure[of "\<lparr>window_size = 2, buffer = [3, 4], index = 1, sum_acc = 7\<rparr>" 8
      "\<lparr>window_size = 2, buffer = [0, 0], index = 0, sum_acc = 0\<rparr>"]
  by simp

section \<open>Arguments that are not positive\<close>




text \<open>
  Claim C10 as stated does not hold in its account of the failure: on the object
  constructed with \<open>window_size = 0\<close> the modulus would raise
  \<^verbatim>\<open>ZeroDivisionError\<close>, but the call never gets there; it stops at the first
  statement, the read of \<^verbatim>\<open>buffer[index]\<close>, with \<^verbatim>\<open>IndexError\<close>.
\<close>

theorem zero_window_counterexample:
  "py_mod (index \<lparr>window_size = 0, buffer = [], index = 0, sum_acc = 0\<rparr> + 1)
          (window_size \<lparr>window_size = 0, buffer = [], index = 0, sum_acc = 0\<rparr>)
     = Inl ZeroDivisionError \<and>
   filter_sample \<lparr>window_size = 0, buffer = [], index = 0, sum_acc = 0\<rparr> 1
     = (Inl IndexError, \<lparr>window_size = 0, buffer = [], index = 0, sum_acc = 0\<rparr>) \<and>
   fst (filter_sample \<lparr>window_size = 0, buffer = [], index = 0, sum_acc = 0\<rparr> 1)
     \<noteq> Inl ZeroDivisionError"
  by (simp add: py_mod_def filter_sample_def ndarray_get_def norm_index_def)

text \<open>
  Claim C10, amended. Constructing with \<open>window_size = 0\<close> succeeds and returns an
  object with an empty buffer, index \<open>0\<close> and sum \<open>0\<close>; every \<^verbatim>\<open>filter_sample\<close>
  call on it fails with \<^verbatim>\<open>IndexError\<close> at the read of \<^verbatim>\<open>buffer[index]\<close> and
  leaves the object unchanged, so every later call fails in the same way.
\<close>

theorem zero_window_fails_at_buffer_read:
  "MovingAverageFilter 0 = Inr \<lparr>window_size = 0, buffer = [], index = 0, sum_acc = 0\<rparr> \<and>
   filter_sample \<lparr>window_size = 0, buffer = [], index = 0, sum_acc = 0\<rparr> x
     = (Inl IndexError, \<lparr>window_size = 0, buffer = [], index = 0, sum_acc = 0\<rparr>) \<and>
   filter_samples \<lparr>window_size = 0, buffer = [], index = 0, sum_acc = 0\<rparr> (x # xs)
     = (Inl IndexError, \<lparr>window_size = 0, buffer = [], index = 0, sum_acc = 0\<rparr>)"
  by (simp add: MovingAverageFilter_def np_zeros_def filter_sample_def ndarray_get_def
      norm_index_def)

end
